theory Spec2Isabelle
  imports Main "HOL-Library.Word" "HOL-Library.Stream" "HOL-Library.AList"
begin

unbundle bit_operations_syntax

section \<open>Go values\<close>

text \<open>
  A Go \<open>string\<close> is an immutable sequence of bytes; it is modelled as an Isabelle
  \<open>string\<close> (a list of 8-bit characters). A Go \<open>[]byte\<close> is a list of 8-bit words.
  The conversions \<open>[]byte(s)\<close> and \<open>string(b)\<close> copy the bytes one by one.
\<close>

type_synonym byte = "8 word"

definition bytes_of_string :: "string \<Rightarrow> byte list" where
  "bytes_of_string s = map of_char s"

definition string_of_bytes :: "byte list \<Rightarrow> string" where
  "string_of_bytes bs = map (\<lambda>b. char_of (unat b)) bs"

section \<open>Package strings and bytes\<close>

text \<open>
  The functions of the standard library that the program calls, after their documentation.
  \<open>strings.HasPrefix\<close> and \<open>bytes.HasPrefix\<close>:
  \<open>len(s) >= len(prefix) && s[:len(prefix)] == prefix\<close>.
\<close>

definition HasPrefix :: "'a list \<Rightarrow> 'a list \<Rightarrow> bool" where
  "HasPrefix s pre = (length pre \<le> length s \<and> take (length pre) s = pre)"

text \<open>
  \<open>strings.Index\<close>: the index of the first instance of \<open>sep\<close> in \<open>s\<close>; Go's \<open>-1\<close>
  is \<open>None\<close>.
\<close>

fun Index :: "'a list \<Rightarrow> 'a list \<Rightarrow> nat option" where
  "Index [] sep = (if sep = [] then Some 0 else None)"
| "Index (c # cs) sep =
     (if HasPrefix (c # cs) sep then Some 0 else map_option Suc (Index cs sep))"

text \<open>\<open>strings.Contains(s, substr)\<close> is \<open>Index(s, substr) >= 0\<close>.\<close>

definition Contains :: "'a list \<Rightarrow> 'a list \<Rightarrow> bool" where
  "Contains s substr = (Index s substr \<noteq> None)"

text \<open>
  \<open>strings.Split(s, sep)\<close> for a non-empty separator: cut at the leftmost occurrence of
  \<open>sep\<close>, drop the separator and go on with the rest; the last piece is what remains.
  (With an empty separator Go explodes \<open>s\<close> into its UTF-8 sequences; the program never
  splits on an empty separator, and the model returns the bytes one by one there.)
\<close>

function Split :: "'a list \<Rightarrow> 'a list \<Rightarrow> 'a list list" where
  "Split s sep =
     (if sep = [] then map (\<lambda>c. [c]) s
      else case Index s sep of
             None \<Rightarrow> [s]
           | Some m \<Rightarrow> take m s # Split (drop (m + length sep) s) sep)"
  by pat_completeness auto

lemma Index_Some_le: "Index s sep = Some m \<Longrightarrow> m + length sep \<le> length s"
proof (induction s arbitrary: m)
  case Nil
  then show ?case by (simp split: if_splits)
next
  case (Cons c cs)
  show ?case
  proof (cases "HasPrefix (c # cs) sep")
    case True
    with Cons.prems show ?thesis by (simp add: HasPrefix_def)
  next
    case False
    with Cons.prems obtain k where "Index cs sep = Some k" and "m = Suc k"
      by auto
    with Cons.IH [of k] show ?thesis by simp
  qed
qed

termination Split
proof (relation "measure (\<lambda>(s, sep). length s)")
  show "wf (measure (\<lambda>(s, sep). length s))" by simp
next
  fix s sep :: "'a list" and m
  assume "sep \<noteq> []" and "Index s sep = Some m"
  then have "m + length sep \<le> length s" and "0 < length sep"
    by (auto dest: Index_Some_le)
  then show "((drop (m + length sep) s, sep), (s, sep)) \<in> measure (\<lambda>(s, sep). length s)"
    by (cases sep) simp_all
qed

declare Split.simps [simp del]

section \<open>The log filter (stream.go)\<close>

definition logIdentifier :: string where
  "logIdentifier = ''G3KpTd7r''"

definition programDataPrefix :: string where
  "programDataPrefix = ''Program data: ''"

datatype borsh_error = UnexpectedEOF

datatype error =
    NoProgramData
  | CorruptInput
  | DataTooShort nat nat
  | InvalidDiscriminator "byte list" "byte list"
  | BorshPayload borsh_error
  | ExtractFailed error
  | Base64Failed error
  | DecodeEventFailed error
  | MarshalFailed error
  | ConnectFailed
  | SubscribeFailed
  | RecvFailed

text \<open>
  \<open>extractProgramData\<close>: split the line on the prefix; fewer than two parts is an error,
  otherwise the second part is the payload.
\<close>

definition extractProgramData :: "string \<Rightarrow> error + string" where
  "extractProgramData log =
     (let parts = Split log programDataPrefix
      in if length parts < 2 then Inl NoProgramData else Inr (parts ! 1))"


section \<open>Library functions the decoder relies on\<close>

subsection \<open>encoding/base64: \<open>StdEncoding.DecodeString\<close>\<close>

text \<open>
  The standard library is not part of the repository; its decoder is modelled from the
  documentation of the package. The standard alphabet is \<open>A-Z a-z 0-9 + /\<close> with the
  padding character \<open>=\<close>; \<open>b64_value\<close> is the decode map (\<open>None\<close> for a byte
  outside the alphabet).
\<close>

definition b64_value :: "char \<Rightarrow> nat option" where
  "b64_value c =
     (let n = (of_char c :: nat)
      in if 65 \<le> n \<and> n \<le> 90 then Some (n - 65)
         else if 97 \<le> n \<and> n \<le> 122 then Some (n - 71)
         else if 48 \<le> n \<and> n \<le> 57 then Some (n + 4)
         else if n = 43 then Some 62
         else if n = 47 then Some 63
         else None)"

text \<open>
  Four 6-bit values make \<open>val = d0<<18 | d1<<12 | d2<<6 | d3\<close>; the output bytes are
  \<open>byte(val>>16)\<close>, \<open>byte(val>>8)\<close>, \<open>byte(val)\<close>.
\<close>

definition b64_quantum :: "nat \<Rightarrow> nat \<Rightarrow> nat \<Rightarrow> nat \<Rightarrow> byte list" where
  "b64_quantum d0 d1 d2 d3 =
     (let val = d0 * 262144 + d1 * 4096 + d2 * 64 + d3
      in [of_nat (val div 65536), of_nat (val div 256), of_nat val])"

text \<open>
  The input with its line breaks removed is read four characters at a time. Padding may
  only close the last group (\<open>xx==\<close> gives one byte, \<open>xxx=\<close> two); a group cut short,
  a character outside the alphabet and anything after the padding are corrupt input. The
  encoding is not strict: the unused low bits of a padded group are not checked.
\<close>

fun decode_quanta :: "string \<Rightarrow> error + byte list" where
  "decode_quanta [] = Inr []"
| "decode_quanta (a # b # c # d # rest) =
     (case (b64_value a, b64_value b) of
        (Some d0, Some d1) \<Rightarrow>
          if c = CHR ''='' then
            (if d = CHR ''='' \<and> rest = [] then Inr (take 1 (b64_quantum d0 d1 0 0))
             else Inl CorruptInput)
          else
            (case b64_value c of
               None \<Rightarrow> Inl CorruptInput
             | Some d2 \<Rightarrow>
                 if d = CHR ''='' then
                   (if rest = [] then Inr (take 2 (b64_quantum d0 d1 d2 0))
                    else Inl CorruptInput)
                 else
                   (case b64_value d of
                      None \<Rightarrow> Inl CorruptInput
                    | Some d3 \<Rightarrow>
                        (case decode_quanta rest of
                           Inl e \<Rightarrow> Inl e
                         | Inr bs \<Rightarrow> Inr (b64_quantum d0 d1 d2 d3 @ bs))))
      | _ \<Rightarrow> Inl CorruptInput)"
| "decode_quanta _ = Inl CorruptInput"

definition DecodeString :: "string \<Rightarrow> error + byte list" where
  "DecodeString s =
     decode_quanta (filter (\<lambda>c. c \<noteq> CHR 0x0A \<and> c \<noteq> CHR 0x0D) s)"

subsection \<open>solana.PublicKey and its text form\<close>

text \<open>A \<open>solana.PublicKey\<close> is a \<open>[32]byte\<close>.\<close>

typedef PublicKey = "{bs :: byte list. length bs = 32}"
  morphisms PublicKey_bytes PublicKey_of_bytes
  by (rule exI [of _ "replicate 32 0"]) simp

text \<open>
  Modelled from the spec: \<open>PublicKey.String()\<close> belongs to a library the repository
  imports; the spec gives the text of the mint as "the base58 (or equivalent canonical
  text) rendering". Base58 with the Bitcoin alphabet writes one \<open>1\<close> for every leading
  zero byte, then the big-endian number in base 58.
\<close>

definition b58_alphabet :: string where
  "b58_alphabet = ''123456789ABCDEFGHJKLMNPQRSTUVWXYZabcdefghijkmnopqrstuvwxyz''"

definition nat_of_bytes :: "byte list \<Rightarrow> nat" where
  "nat_of_bytes bs = foldl (\<lambda>acc b. acc * 256 + unat b) 0 bs"

function b58_digits :: "nat \<Rightarrow> string" where
  "b58_digits n =
     (if n = 0 then [] else b58_digits (n div 58) @ [b58_alphabet ! (n mod 58)])"
  by pat_completeness auto
termination
  by (relation "measure id") auto

declare b58_digits.simps [simp del]

definition base58_Encode :: "byte list \<Rightarrow> string" where
  "base58_Encode bs =
     replicate (length (takeWhile (\<lambda>b. b = 0) bs)) CHR ''1'' @ b58_digits (nat_of_bytes bs)"

definition PublicKey_String :: "PublicKey \<Rightarrow> string" where
  "PublicKey_String p = base58_Encode (PublicKey_bytes p)"

subsection \<open>The Borsh decoder of github.com/gagliardetto/binary\<close>

text \<open>
  Modelled from the spec: the Borsh decoder is a library the repository imports; the spec
  gives the layout as "field order: name, symbol, uri, mint, each a length-prefixed text
  or fixed-size binary field per the upstream's binary encoding". In Borsh a text is a
  little-endian \<open>u32\<close> byte count followed by that many bytes, and a fixed-size byte
  array is its bytes. A reader returns the value and the bytes left; reading past the end
  is an error.
\<close>

type_synonym 'a reader = "byte list \<Rightarrow> borsh_error + 'a \<times> byte list"

definition Uint32_LE :: "byte \<Rightarrow> byte \<Rightarrow> byte \<Rightarrow> byte \<Rightarrow> 32 word" where
  "Uint32_LE b0 b1 b2 b3 =
     ucast b0 OR push_bit 8 (ucast b1) OR push_bit 16 (ucast b2) OR push_bit 24 (ucast b3)"

definition ReadNBytes :: "nat \<Rightarrow> byte list reader" where
  "ReadNBytes n bs = (if n > length bs then Inl UnexpectedEOF else Inr (take n bs, drop n bs))"

definition ReadUint32 :: "32 word reader" where
  "ReadUint32 bs =
     (case bs of
        b0 # b1 # b2 # b3 # rest \<Rightarrow> Inr (Uint32_LE b0 b1 b2 b3, rest)
      | _ \<Rightarrow> Inl UnexpectedEOF)"

definition ReadString :: "string reader" where
  "ReadString bs =
     (case ReadUint32 bs of
        Inl e \<Rightarrow> Inl e
      | Inr (n, rest) \<Rightarrow>
          (case ReadNBytes (unat n) rest of
             Inl e \<Rightarrow> Inl e
           | Inr (data, rest') \<Rightarrow> Inr (string_of_bytes data, rest')))"

definition ReadPublicKey :: "PublicKey reader" where
  "ReadPublicKey bs =
     (case ReadNBytes 32 bs of
        Inl e \<Rightarrow> Inl e
      | Inr (data, rest) \<Rightarrow> Inr (PublicKey_of_bytes data, rest))"

section \<open>The event records (stream.go)\<close>

record RawEvent =
  Name :: string
  Symbol :: string
  Uri :: string
  Mint :: PublicKey

record CreateEvent =
  name :: string
  symbol :: string
  uri :: string
  mint :: string

definition creationDiscriminator :: "byte list" where
  "creationDiscriminator = [27, 114, 169, 77, 222, 235, 99, 118]"

text \<open>
  The decoder walks the fields of the struct in their declaration order: Name, Symbol,
  Uri, Mint. Bytes after the last field are left unread.
\<close>

definition read_RawEvent :: "RawEvent reader" where
  "read_RawEvent bs =
     (case ReadString bs of
        Inl e \<Rightarrow> Inl e
      | Inr (n, r1) \<Rightarrow>
     (case ReadString r1 of
        Inl e \<Rightarrow> Inl e
      | Inr (s, r2) \<Rightarrow>
     (case ReadString r2 of
        Inl e \<Rightarrow> Inl e
      | Inr (u, r3) \<Rightarrow>
     (case ReadPublicKey r3 of
        Inl e \<Rightarrow> Inl e
      | Inr (m, r4) \<Rightarrow> Inr (\<lparr>Name = n, Symbol = s, Uri = u, Mint = m\<rparr>, r4)))))"

section \<open>The payload decoder\<close>

text \<open>
  A Go call returns a value, returns an error, or panics. Slicing \<open>data[:n]\<close> and
  \<open>data[n:]\<close> panics when \<open>n\<close> is beyond the slice.
\<close>

datatype 'a outcome = Ok 'a | Error error | Panic

definition slice_to :: "'a list \<Rightarrow> nat \<Rightarrow> 'a list option" where
  "slice_to xs n = (if n \<le> length xs then Some (take n xs) else None)"

definition slice_from :: "'a list \<Rightarrow> nat \<Rightarrow> 'a list option" where
  "slice_from xs n = (if n \<le> length xs then Some (drop n xs) else None)"

text \<open>
  \<open>DecodeBorsh(dst, data)\<close> runs the library decoder for the type of \<open>dst\<close> on a fresh
  decoder over \<open>data\<close>; the model takes the reader of that type as an argument.
\<close>

definition DecodeBorsh :: "'t reader \<Rightarrow> byte list \<Rightarrow> borsh_error + 't" where
  "DecodeBorsh rd data = (case rd data of Inl e \<Rightarrow> Inl e | Inr (v, rest) \<Rightarrow> Inr v)"

text \<open>
  \<open>DecodeBase64[T]\<close>: the length guard, the discriminator check, the payload slice and
  the Borsh decoding, in the order of the source.
\<close>

definition DecodeBase64 :: "'t reader \<Rightarrow> byte list \<Rightarrow> byte list \<Rightarrow> 't outcome" where
  "DecodeBase64 rd data discriminator =
     (if length data < length discriminator
      then Error (DataTooShort (length discriminator) (length data))
      else case slice_to data (length discriminator) of
        None \<Rightarrow> Panic
      | Some head \<Rightarrow>
          if head \<noteq> discriminator then Error (InvalidDiscriminator discriminator head)
          else case slice_from data (length discriminator) of
            None \<Rightarrow> Panic
          | Some payload \<Rightarrow>
              (case DecodeBorsh rd payload of
                 Inl e \<Rightarrow> Error (BorshPayload e)
               | Inr event \<Rightarrow> Ok event))"


subsection \<open>encoding/json: \<open>Marshal\<close> of a struct of strings\<close>

text \<open>
  Modelled from the documentation of the standard library, which is not part of the
  repository. A string is written between double quotes. ASCII bytes are copied, except
  the quote and the backslash (escaped with a backslash), the control characters (short
  escapes for backspace, form feed, newline, carriage return and tab, \<open>\u00XX\<close> for
  the others) and \<open><\<close>, \<open>>\<close>, \<open>&\<close> (HTML escaping is on, \<open>\u00XX\<close>). A byte
  that does not start a valid UTF-8 sequence becomes the escape of U+FFFD; U+2028 and
  U+2029 are escaped; every other UTF-8 sequence is copied.
\<close>

definition hex_digit :: "nat \<Rightarrow> char" where
  "hex_digit n = ''0123456789abcdef'' ! n"

definition htmlSafe :: "nat \<Rightarrow> bool" where
  "htmlSafe b = (32 \<le> b \<and> b < 128 \<and> b \<noteq> 34 \<and> b \<noteq> 38 \<and> b \<noteq> 60 \<and> b \<noteq> 62 \<and> b \<noteq> 92)"

definition escape_byte :: "char \<Rightarrow> string" where
  "escape_byte c =
     (let b = (of_char c :: nat)
      in if b = 92 \<or> b = 34 then [CHR 0x5C, c]
         else if b = 8 then [CHR 0x5C, CHR ''b'']
         else if b = 12 then [CHR 0x5C, CHR ''f'']
         else if b = 10 then [CHR 0x5C, CHR ''n'']
         else if b = 13 then [CHR 0x5C, CHR ''r'']
         else if b = 9 then [CHR 0x5C, CHR ''t'']
         else [CHR 0x5C, CHR ''u'', CHR ''0'', CHR ''0'', hex_digit (b div 16), hex_digit (b mod 16)])"

definition continuation :: "nat \<Rightarrow> bool" where
  "continuation b = (128 \<le> b \<and> b \<le> 191)"

text \<open>
  \<open>utf8.DecodeRuneInString\<close> on a string whose first byte is not ASCII: the size of the
  sequence, 1 when the encoding is invalid or cut short.
\<close>

definition rune_size :: "nat list \<Rightarrow> nat" where
  "rune_size bs =
     (case bs of
        [] \<Rightarrow> 1
      | b0 # r0 \<Rightarrow>
          if 194 \<le> b0 \<and> b0 \<le> 223 then
            (case r0 of b1 # _ \<Rightarrow> if continuation b1 then 2 else 1 | _ \<Rightarrow> 1)
          else if 224 \<le> b0 \<and> b0 \<le> 239 then
            (case r0 of
               b1 # b2 # _ \<Rightarrow>
                 if (if b0 = 224 then 160 else 128) \<le> b1 \<and> b1 \<le> (if b0 = 237 then 159 else 191)
                    \<and> continuation b2
                 then 3 else 1
             | _ \<Rightarrow> 1)
          else if 240 \<le> b0 \<and> b0 \<le> 244 then
            (case r0 of
               b1 # b2 # b3 # _ \<Rightarrow>
                 if (if b0 = 240 then 144 else 128) \<le> b1 \<and> b1 \<le> (if b0 = 244 then 143 else 191)
                    \<and> continuation b2 \<and> continuation b3
                 then 4 else 1
             | _ \<Rightarrow> 1)
          else 1)"

fun json_escape :: "string \<Rightarrow> string" where
  "json_escape [] = []"
| "json_escape (c # cs) =
     (if (of_char c :: nat) < 128 then
        (if htmlSafe (of_char c) then [c] else escape_byte c) @ json_escape cs
      else if rune_size (map of_char (take 4 (c # cs))) = 1 then
        [CHR 0x5C, CHR ''u'', CHR ''f'', CHR ''f'', CHR ''f'', CHR ''d''] @ json_escape cs
      else if take 3 (c # cs) = [CHR 0xE2, CHR 0x80, CHR 0xA8] then
        [CHR 0x5C, CHR ''u'', CHR ''2'', CHR ''0'', CHR ''2'', CHR ''8''] @ json_escape (drop 2 cs)
      else if take 3 (c # cs) = [CHR 0xE2, CHR 0x80, CHR 0xA9] then
        [CHR 0x5C, CHR ''u'', CHR ''2'', CHR ''0'', CHR ''2'', CHR ''9''] @ json_escape (drop 2 cs)
      else
        take (rune_size (map of_char (take 4 (c # cs)))) (c # cs)
          @ json_escape (drop (rune_size (map of_char (take 4 (c # cs))) - 1) cs))"

definition json_string :: "string \<Rightarrow> string" where
  "json_string s = [CHR 0x22] @ json_escape s @ [CHR 0x22]"

text \<open>
  The fields of \<open>CreateEvent\<close> are written in their declaration order under the names of
  their \<open>json\<close> tags. Encoding a struct of strings has no failing case.
\<close>

definition json_Marshal :: "CreateEvent \<Rightarrow> error + byte list" where
  "json_Marshal ev =
     Inr (bytes_of_string
       (''{'' @ json_string ''name'' @ '':'' @ json_string (name ev)
         @ '','' @ json_string ''symbol'' @ '':'' @ json_string (symbol ev)
         @ '','' @ json_string ''uri'' @ '':'' @ json_string (uri ev)
         @ '','' @ json_string ''mint'' @ '':'' @ json_string (mint ev) @ ''}''))"

section \<open>The decode pipeline (stream.go)\<close>

text \<open>
  \<open>processLog\<close> returns its error (\<open>Ok ()\<close> is \<open>nil\<close>) and the messages it handed to
  \<open>go sendMessageToAllClients\<close>.
\<close>

definition processLog :: "string \<Rightarrow> unit outcome \<times> byte list list" where
  "processLog log =
     (if \<not> Contains log logIdentifier then (Ok (), [])
      else case extractProgramData log of
        Inl e \<Rightarrow> (Error (ExtractFailed e), [])
      | Inr data \<Rightarrow>
     (case DecodeString data of
        Inl e \<Rightarrow> (Error (Base64Failed e), [])
      | Inr decoded \<Rightarrow>
          if \<not> HasPrefix decoded creationDiscriminator then (Ok (), [])
          else
     (case DecodeBase64 read_RawEvent decoded creationDiscriminator of
        Panic \<Rightarrow> (Panic, [])
      | Error e \<Rightarrow> (Error (DecodeEventFailed e), [])
      | Ok event \<Rightarrow>
          (let createEvent =
                 \<lparr>name = Name event, symbol = Symbol event, uri = Uri event,
                  mint = PublicKey_String (Mint event)\<rparr>
           in case json_Marshal createEvent of
                Inl e \<Rightarrow> (Error (MarshalFailed e), [])
              | Inr marshalled \<Rightarrow> (Ok (), [marshalled])))))"


section \<open>The upstream connector (stream.go)\<close>

text \<open>
  What the remote endpoint does is the input of the model. One \<open>sub.Recv\<close> returns an
  error or a message with its log lines; a subscription is the sequence of the results of
  its \<open>Recv\<close> calls; one pass through \<open>connectAndListen\<close> meets a connect failure, a
  subscribe failure or a subscription.
\<close>

datatype recv = RecvError | RecvMessage "string list"

datatype attempt = ConnectFails | SubscribeFails | Subscribed "recv stream"

text \<open>
  \<open>main\<close> starts \<open>listenToNewPairs\<close> as a goroutine, which lives until the process
  ends. The world says, for every turn of the loop, whether the process has ended by then
  or what the upstream does in that pass.
\<close>

datatype turn = ProcessEnds | Upstream attempt

text \<open>The calls the connector makes, in order; a duration is in nanoseconds.\<close>

datatype action =
    EvConnect
  | EvSubscribe
  | EvRecv
  | EvClose
  | EvProcessError error
  | EvGoSendMessageToAllClients "byte list"
  | EvSleep nat

text \<open>How the goroutine stops, with its trace: with the process, or by a panic.\<close>

datatype ending = Ended "action list" | Panicked "action list"

definition reconnectDelay :: nat where
  "reconnectDelay = 2 * 1000000000"

text \<open>
  The inner loop of \<open>listenForMessages\<close>: every log line of a message goes through
  \<open>processLog\<close>; an error is printed and the loop goes on. \<open>None\<close> is a panic.
\<close>

fun process_logs :: "string list \<Rightarrow> action list \<Rightarrow> action list option" where
  "process_logs [] tr = Some tr"
| "process_logs (l # ls) tr =
     (case processLog l of
        (Panic, sent) \<Rightarrow> None
      | (Error e, sent) \<Rightarrow>
          process_logs ls (tr @ map EvGoSendMessageToAllClients sent @ [EvProcessError e])
      | (Ok u, sent) \<Rightarrow> process_logs ls (tr @ map EvGoSendMessageToAllClients sent))"

text \<open>
  \<open>listenForMessages\<close> loops until a \<open>Recv\<close> fails; it has no other exit. The result
  \<open>None\<close> of the partial function is a loop that never ends.
\<close>

partial_function (option) listenForMessages ::
    "recv stream \<Rightarrow> action list \<Rightarrow> (unit outcome \<times> action list) option" where
  "listenForMessages sub tr =
     (case shd sub of
        RecvError \<Rightarrow> Some (Error RecvFailed, tr @ [EvRecv])
      | RecvMessage logs \<Rightarrow>
          (case process_logs logs (tr @ [EvRecv]) of
             None \<Rightarrow> Some (Panic, tr @ [EvRecv])
           | Some tr' \<Rightarrow> listenForMessages (stl sub) tr'))"

text \<open>
  \<open>connectAndListen\<close>: connect, subscribe, listen. The deferred \<open>socket.Close()\<close>
  runs whenever the function is left after a successful connect.
\<close>

definition connectAndListen ::
    "attempt \<Rightarrow> action list \<Rightarrow> (unit outcome \<times> action list) option" where
  "connectAndListen a tr =
     (case a of
        ConnectFails \<Rightarrow> Some (Error ConnectFailed, tr @ [EvConnect])
      | SubscribeFails \<Rightarrow> Some (Error SubscribeFailed, tr @ [EvConnect, EvSubscribe, EvClose])
      | Subscribed sub \<Rightarrow>
          (case listenForMessages sub (tr @ [EvConnect, EvSubscribe]) of
             None \<Rightarrow> None
           | Some (r, tr') \<Rightarrow> Some (r, tr' @ [EvClose])))"

text \<open>
  The body of the \<open>for\<close> loop of \<open>listenToNewPairs\<close>: on an error, print and sleep
  \<open>reconnectDelay\<close>. \<open>Inr\<close> is the trace with which the loop goes on, \<open>Inl\<close> the trace
  at a panic.
\<close>

definition listenToNewPairs_body ::
    "attempt \<Rightarrow> action list \<Rightarrow> (action list + action list) option" where
  "listenToNewPairs_body a tr =
     (case connectAndListen a tr of
        None \<Rightarrow> None
      | Some (Ok u, tr') \<Rightarrow> Some (Inr tr')
      | Some (Error e, tr') \<Rightarrow> Some (Inr (tr' @ [EvSleep reconnectDelay]))
      | Some (Panic, tr') \<Rightarrow> Some (Inl tr'))"

text \<open>
  \<open>listenToNewPairs\<close>: the loop has no \<open>break\<close> and no \<open>return\<close>. The goroutine
  stops when the process ends, and its trace is what it has done by then; a panic would
  stop it too. The result \<open>None\<close> of the partial function is a loop that never ends.
\<close>

partial_function (option) listenToNewPairs ::
    "turn stream \<Rightarrow> action list \<Rightarrow> ending option" where
  "listenToNewPairs w tr =
     (case shd w of
        ProcessEnds \<Rightarrow> Some (Ended tr)
      | Upstream a \<Rightarrow>
          (case listenToNewPairs_body a tr of
             None \<Rightarrow> None
           | Some (Inl tr') \<Rightarrow> Some (Panicked tr')
           | Some (Inr tr') \<Rightarrow> listenToNewPairs (stl w) tr'))"

text \<open>A pass fails when it meets a failure after finitely many steps.\<close>

fun fails :: "attempt \<Rightarrow> bool" where
  "fails ConnectFails = True"
| "fails SubscribeFails = True"
| "fails (Subscribed sub) = (\<exists>k. snth sub k = RecvError)"


text \<open>What a trace shows: the delays of its sleeps, and the number of its connects.\<close>

fun delays :: "action list \<Rightarrow> nat list" where
  "delays [] = []"
| "delays (EvSleep d # tr) = d # delays tr"
| "delays (a # tr) = delays tr"

definition connects :: "action list \<Rightarrow> nat" where
  "connects tr = length (filter (\<lambda>a. a = EvConnect) tr)"

text \<open>
  The trace of one pass that failed: it starts with the connect and ends with the sleep of
  \<open>reconnectDelay\<close>, and there is no other connect and no other sleep in it.
\<close>

definition failed_pass :: "action list \<Rightarrow> bool" where
  "failed_pass b \<longleftrightarrow>
     b \<noteq> [] \<and> hd b = EvConnect \<and> last b = EvSleep reconnectDelay
     \<and> connects b = 1 \<and> delays b = [reconnectDelay]"

section \<open>The downstream server\<close>

text \<open>
  A \<open>*websocket.Conn\<close> is an object with an identity and a remote address. A \<open>Client\<close>
  holds its connection and a mutex; the registry stores pointers to clients, so the state
  of the mutex is kept in the server state, under the identity of the connection (every
  connection gets one client, made in \<open>handleConnection\<close>).
\<close>

record Conn =
  ident :: nat
  RemoteAddr :: string

record Client =
  Connection :: Conn

definition pingMessage :: string where
  "pingMessage = ''ping''"

definition pongResponse :: string where
  "pongResponse = ''{'' @ [CHR 0x22] @ ''message'' @ [CHR 0x22] @ '':''
                  @ [CHR 0x22] @ ''pong'' @ [CHR 0x22] @ ''}''"

text \<open>
  The two goroutines that write to a client have the same shape: lock the client's mutex,
  write one text message, log a failure, unlock (deferred). A goroutine is its client, its
  message and the point it has reached.
\<close>

datatype point = AtLock | AtWrite | AtUnlock | Finished

datatype purpose = Delivery | Pong

record goroutine =
  target :: Client
  msg :: "byte list"
  purpose :: purpose
  point :: point

datatype log_entry = SendFailed string | PongFailed string

record server =
  ConnectedClients :: "(string \<times> Client) list"
  next_conn :: nat
  reading :: "Conn list"
  goroutines :: "goroutine list"
  locked :: "nat set"
  writes :: "(nat \<times> byte list \<times> bool) list"
  logged :: "log_entry list"


text \<open>
  \<open>sendMessageToAllClients\<close>: collect the clients of the registry with \<open>Range\<close>, then
  start one goroutine for each of them, all with the same message.
\<close>

definition sendMessageToAllClients :: "byte list \<Rightarrow> server \<Rightarrow> server" where
  "sendMessageToAllClients message s =
     (let allClients = map snd (ConnectedClients s)
      in s\<lparr>goroutines := goroutines s
            @ map (\<lambda>c. \<lparr>target = c, msg = message, purpose = Delivery, point = AtLock\<rparr>)
                  allClients\<rparr>)"

text \<open>
  \<open>handleConnection\<close> blocks in \<open>ReadMessage\<close>, so it is modelled by what it does
  between two reads: the start up to the first read, one turn of the loop for a frame,
  and the exit after a read error.
\<close>

definition handleConnection_start :: "Conn \<Rightarrow> server \<Rightarrow> server" where
  "handleConnection_start conn s =
     (let address = RemoteAddr conn; client = \<lparr>Connection = conn\<rparr>
      in s\<lparr>ConnectedClients := AList.update address client (ConnectedClients s),
            reading := reading s @ [conn]\<rparr>)"

definition handleConnection_frame :: "Conn \<Rightarrow> byte list \<Rightarrow> server \<Rightarrow> server" where
  "handleConnection_frame conn message s =
     (if Contains (string_of_bytes message) pingMessage
      then s\<lparr>goroutines := goroutines s
             @ [\<lparr>target = \<lparr>Connection = conn\<rparr>, msg = bytes_of_string pongResponse,
                 purpose = Pong, point = AtLock\<rparr>]\<rparr>
      else s)"

definition handleConnection_exit :: "Conn \<Rightarrow> server \<Rightarrow> server" where
  "handleConnection_exit conn s =
     s\<lparr>ConnectedClients := AList.delete (RemoteAddr conn) (ConnectedClients s),
       reading := filter (\<lambda>c. c \<noteq> conn) (reading s)\<rparr>"

text \<open>
  \<open>HandleWebSocket\<close>: a failed upgrade returns at once; a successful one makes a new
  connection object and runs \<open>handleConnection\<close> on it.
\<close>

definition HandleWebSocket :: "string option \<Rightarrow> server \<Rightarrow> server" where
  "HandleWebSocket upgraded s =
     (case upgraded of
        None \<Rightarrow> s
      | Some address \<Rightarrow>
          handleConnection_start \<lparr>ident = next_conn s, RemoteAddr = address\<rparr>
            (s\<lparr>next_conn := Suc (next_conn s)\<rparr>))"

text \<open>
  One step of the goroutine at position \<open>i\<close>; \<open>ok\<close> is the result of its
  \<open>WriteMessage\<close>. A goroutine waiting for a held mutex does not move.
\<close>

definition goroutine_step :: "nat \<Rightarrow> bool \<Rightarrow> server \<Rightarrow> server" where
  "goroutine_step i ok s =
     (if i < length (goroutines s) then
        (let g = goroutines s ! i; c = Connection (target g)
         in case point g of
              AtLock \<Rightarrow>
                if ident c \<in> locked s then s
                else s\<lparr>locked := insert (ident c) (locked s),
                       goroutines := (goroutines s)[i := g\<lparr>point := AtWrite\<rparr>]\<rparr>
            | AtWrite \<Rightarrow>
                s\<lparr>writes := writes s @ [(ident c, msg g, ok)],
                  logged := (if ok then logged s
                             else logged s @ [case purpose g of
                                                Delivery \<Rightarrow> SendFailed (RemoteAddr c)
                                              | Pong \<Rightarrow> PongFailed (RemoteAddr c)]),
                  goroutines := (goroutines s)[i := g\<lparr>point := AtUnlock\<rparr>]\<rparr>
            | AtUnlock \<Rightarrow>
                s\<lparr>locked := locked s - {ident c},
                  goroutines := (goroutines s)[i := g\<lparr>point := Finished\<rparr>]\<rparr>
            | Finished \<Rightarrow> s)
      else s)"

text \<open>
  What happens to the server, one event at a time: a connection request, a frame or a
  read error on an open connection, a broadcast, a step of a goroutine.
\<close>

datatype event =
    Request "string option"
  | Frame nat "byte list"
  | ReadFails nat
  | Broadcast "byte list"
  | Run nat bool

fun step :: "event \<Rightarrow> server \<Rightarrow> server" where
  "step (Request upgraded) s = HandleWebSocket upgraded s"
| "step (Frame i message) s =
     (case find (\<lambda>c. ident c = i) (reading s) of
        None \<Rightarrow> s
      | Some conn \<Rightarrow> handleConnection_frame conn message s)"
| "step (ReadFails i) s =
     (case find (\<lambda>c. ident c = i) (reading s) of
        None \<Rightarrow> s
      | Some conn \<Rightarrow> handleConnection_exit conn s)"
| "step (Broadcast message) s = sendMessageToAllClients message s"
| "step (Run i ok) s = goroutine_step i ok s"

definition run :: "event list \<Rightarrow> server \<Rightarrow> server" where
  "run evs s = foldl (\<lambda>s e. step e s) s evs"







section \<open>The upstream's encoding, for comparison\<close>

text \<open>
  The Borsh encoding of the fields, as the program that emits the events writes them: a
  \<open>u32\<close> in little-endian order, a text as its byte count and its bytes (the count has
  32 bits, so a longer text has no encoding), the key as its 32 bytes.
\<close>

definition borsh_u32 :: "32 word \<Rightarrow> byte list" where
  "borsh_u32 n = [ucast n, ucast (drop_bit 8 n), ucast (drop_bit 16 n), ucast (drop_bit 24 n)]"

definition borsh_string :: "string \<Rightarrow> byte list option" where
  "borsh_string s =
     (if length s < 2 ^ 32 then Some (borsh_u32 (of_nat (length s)) @ bytes_of_string s)
      else None)"

definition borsh_RawEvent :: "RawEvent \<Rightarrow> byte list option" where
  "borsh_RawEvent ev =
     (case (borsh_string (Name ev), borsh_string (Symbol ev), borsh_string (Uri ev)) of
        (Some n, Some s, Some u) \<Rightarrow> Some (n @ s @ u @ PublicKey_bytes (Mint ev))
      | _ \<Rightarrow> None)"

text \<open>The text after the first occurrence of a separator, when there is one.\<close>

definition after_first :: "string \<Rightarrow> string \<Rightarrow> string option" where
  "after_first sep s = map_option (\<lambda>m. drop (m + length sep) s) (Index s sep)"


section \<open>The example scenario\<close>

text \<open>
  A log line as the upstream emits it: the prefix, then the base64 text of the
  discriminator followed by the encoded record with the name \<open>Foo\<close>, the symbol
  \<open>FOO\<close>, the uri \<open>ipfs://x\<close> and the mint key of the bytes 1 to 32.
\<close>

definition example_mint :: "byte list" where
  "example_mint = [1, 2, 3, 4, 5, 6, 7, 8, 9, 10, 11, 12, 13, 14, 15, 16, 17, 18, 19, 20, 21, 22,
     23, 24, 25, 26, 27, 28, 29, 30, 31, 32]"

definition example_line :: string where
  "example_line = ''Program data: G3KpTd7rY3YDAAAARm9vAwAAAEZPTwgAAABpcGZzOi8veAECAwQFBgcICQoLDA0ODxAREhMUFRYXGBkaGxwdHh8g''"


section \<open>Properties of the log filter\<close>

lemma Split_not_Nil: "sep \<noteq> [] \<Longrightarrow> Split s sep \<noteq> []"
  by (subst Split.simps) (simp split: option.splits)

lemma Split_length:
  "sep \<noteq> [] \<Longrightarrow> length (Split s sep) < 2 \<longleftrightarrow> Index s sep = None"
  using Split_not_Nil [where sep = sep]
  by (subst Split.simps) (auto split: option.splits simp: less_Suc_eq)

lemma extractProgramData_Inl_iff:
  "extractProgramData log = Inl e \<longleftrightarrow> e = NoProgramData \<and> \<not> Contains log programDataPrefix"
proof -
  have "programDataPrefix \<noteq> []" by (simp add: programDataPrefix_def)
  then show ?thesis
    by (auto simp add: extractProgramData_def Let_def Split_length Contains_def)
qed

lemma extractProgramData_Inr_Contains:
  "extractProgramData log = Inr data \<Longrightarrow> Contains log programDataPrefix"
  using extractProgramData_Inl_iff [of log NoProgramData]
  by (cases "extractProgramData log") auto

lemma extractProgramData_eq:
  assumes "Index log programDataPrefix = Some m"
  shows "extractProgramData log =
     Inr (let rest = drop (m + length programDataPrefix) log
          in case Index rest programDataPrefix of None \<Rightarrow> rest | Some k \<Rightarrow> take k rest)"
proof -
  have ne: "programDataPrefix \<noteq> []" by (simp add: programDataPrefix_def)
  define rest where "rest = drop (m + length programDataPrefix) log"
  have 1: "Split log programDataPrefix = take m log # Split rest programDataPrefix"
    using assms ne by (subst Split.simps) (simp add: rest_def)
  have 2: "Split rest programDataPrefix =
      (case Index rest programDataPrefix of None \<Rightarrow> [rest]
       | Some k \<Rightarrow> take k rest # Split (drop (k + length programDataPrefix) rest) programDataPrefix)"
    using ne by (subst Split.simps) simp
  show ?thesis
    unfolding extractProgramData_def 1 2 Let_def rest_def [symmetric]
    by (simp split: option.split)
qed

text \<open>
  C4, as amended. For every log line that contains the prefix, the payload is the text
  after the first occurrence of the prefix up to the next occurrence of the prefix, and
  the whole remainder of the line when the prefix does not occur again.
\<close>

theorem extractProgramData_payload:
  assumes "Contains log programDataPrefix"
  shows "\<exists>rest. after_first programDataPrefix log = Some rest
           \<and> extractProgramData log =
                Inr (case Index rest programDataPrefix of None \<Rightarrow> rest | Some k \<Rightarrow> take k rest)"
proof -
  from assms obtain m where m: "Index log programDataPrefix = Some m"
    by (auto simp: Contains_def)
  then show ?thesis
    using extractProgramData_eq [OF m] by (simp add: after_first_def Let_def)
qed

theorem extractProgramData_payload_witness:
  "Contains ''Program data: QUJD'' programDataPrefix
   \<and> extractProgramData ''Program data: QUJD'' = Inr ''QUJD''"
proof -
  have c: "Contains ''Program data: QUJD'' programDataPrefix"
    by (simp add: Contains_def programDataPrefix_def HasPrefix_def)
  have "after_first programDataPrefix ''Program data: QUJD'' = Some ''QUJD''"
    by (simp add: after_first_def programDataPrefix_def HasPrefix_def)
  moreover have "Index ''QUJD'' programDataPrefix = None"
    by (simp add: programDataPrefix_def HasPrefix_def)
  ultimately show ?thesis
    using c extractProgramData_payload [OF c] by auto
qed

text \<open>
  C4, as stated, fails on a line with two occurrences of the prefix: the payload stops at
  the second occurrence and is not the whole remainder of the line.
\<close>

theorem extractProgramData_not_whole_remainder:
  "Contains ''Program data: QQ==Program data: x'' programDataPrefix
   \<and> after_first programDataPrefix ''Program data: QQ==Program data: x''
       = Some ''QQ==Program data: x''
   \<and> extractProgramData ''Program data: QQ==Program data: x'' \<noteq> Inr ''QQ==Program data: x''"
  by (simp add: Contains_def after_first_def extractProgramData_def programDataPrefix_def
      HasPrefix_def Split.simps)

section \<open>Properties of the payload decoder\<close>

lemma DecodeBase64_unfold:
  "DecodeBase64 rd data disc =
     (if length data < length disc then Error (DataTooShort (length disc) (length data))
      else if take (length disc) data \<noteq> disc
        then Error (InvalidDiscriminator disc (take (length disc) data))
      else case rd (drop (length disc) data) of
             Inl e \<Rightarrow> Error (BorshPayload e)
           | Inr (v, rest) \<Rightarrow> Ok v)"
  by (simp add: DecodeBase64_def slice_to_def slice_from_def DecodeBorsh_def
      split: sum.splits prod.splits)

lemma DecodeBase64_prefixed:
  "DecodeBase64 rd (disc @ payload) disc =
     (case rd payload of Inl e \<Rightarrow> Error (BorshPayload e) | Inr (v, rest) \<Rightarrow> Ok v)"
  by (simp add: DecodeBase64_def slice_to_def slice_from_def DecodeBorsh_def
      split: sum.splits prod.splits)

text \<open>
  C10. \<open>DecodeBase64\<close> never panics: an input shorter than the discriminator is answered
  by the error of the length guard, an input whose leading bytes differ from the
  discriminator by an error, and both slices the function takes are within bounds
  whenever the guard lets the input through.
\<close>

theorem DecodeBase64_never_panics:
  "DecodeBase64 rd data disc \<noteq> Panic
   \<and> (length data < length disc \<longrightarrow>
        DecodeBase64 rd data disc = Error (DataTooShort (length disc) (length data)))
   \<and> (length disc \<le> length data \<and> take (length disc) data \<noteq> disc \<longrightarrow>
        DecodeBase64 rd data disc = Error (InvalidDiscriminator disc (take (length disc) data)))
   \<and> (\<not> HasPrefix data disc \<longrightarrow> (\<exists>e. DecodeBase64 rd data disc = Error e))
   \<and> (length disc \<le> length data \<longrightarrow>
        slice_to data (length disc) = Some (take (length disc) data)
        \<and> slice_from data (length disc) = Some (drop (length disc) data))"
  by (auto simp add: DecodeBase64_unfold HasPrefix_def slice_to_def slice_from_def
      split: sum.splits prod.splits)

theorem DecodeBase64_never_panics_witness:
  "DecodeBase64 read_RawEvent [1, 2] creationDiscriminator
     = Error (DataTooShort (length creationDiscriminator) (length [1, 2 :: byte]))
   \<and> DecodeBase64 read_RawEvent [1, 2, 3, 4, 5, 6, 7, 8, 9] creationDiscriminator
       = Error (InvalidDiscriminator creationDiscriminator [1, 2, 3, 4, 5, 6, 7, 8])
   \<and> slice_from [1, 2, 3, 4, 5, 6, 7, 8, 9 :: byte] (length creationDiscriminator) = Some [9]"
  using DecodeBase64_never_panics [of read_RawEvent "[1, 2]" creationDiscriminator]
    DecodeBase64_never_panics [of read_RawEvent "[1, 2, 3, 4, 5, 6, 7, 8, 9]" creationDiscriminator]
  by (simp add: creationDiscriminator_def HasPrefix_def)

subsection \<open>Decoding what the upstream encoded\<close>

lemma Uint32_LE_borsh_u32:
  "Uint32_LE (ucast n) (ucast (drop_bit 8 n)) (ucast (drop_bit 16 n)) (ucast (drop_bit 24 n)) = n"
  unfolding Uint32_LE_def
proof (rule bit_word_eqI)
  fix k :: nat
  assume k: "k < LENGTH(32)"
  consider "k < 8" | "8 \<le> k" "k < 16" | "16 \<le> k" "k < 24" | "24 \<le> k"
    by linarith
  then show "bit (ucast (ucast n :: byte) OR push_bit 8 (ucast (ucast (drop_bit 8 n) :: byte))
      OR push_bit 16 (ucast (ucast (drop_bit 16 n) :: byte))
      OR push_bit 24 (ucast (ucast (drop_bit 24 n) :: byte)) :: 32 word) k = bit n k"
    using k by cases (auto simp add: bit_simps)
qed

lemma char_of_unat_of_char: "char_of (unat (of_char c :: byte)) = c"
proof -
  have "(of_char c :: byte) = of_nat (of_char c)"
    by (simp add: of_nat_of_char)
  then have "unat (of_char c :: byte) = (of_char c :: nat) mod 256"
    by (simp add: unat_of_nat)
  then show ?thesis by simp
qed

lemma string_of_bytes_of_string: "string_of_bytes (bytes_of_string s) = s"
  by (simp add: string_of_bytes_def bytes_of_string_def char_of_unat_of_char o_def)

lemma ReadNBytes_append: "ReadNBytes (length xs) (xs @ rest) = Inr (xs, rest)"
  by (simp add: ReadNBytes_def)

lemma ReadUint32_borsh_u32: "ReadUint32 (borsh_u32 n @ rest) = Inr (n, rest)"
  by (simp add: ReadUint32_def borsh_u32_def Uint32_LE_borsh_u32)

lemma ReadString_borsh_string:
  assumes "borsh_string s = Some bs"
  shows "ReadString (bs @ rest) = Inr (s, rest)"
proof -
  from assms have len: "length s < 2 ^ 32"
    and bs: "bs = borsh_u32 (of_nat (length s)) @ bytes_of_string s"
    by (auto simp: borsh_string_def split: if_splits)
  have "unat (of_nat (length s) :: 32 word) = length s"
    using len by (simp add: unat_of_nat take_bit_nat_eq_self)
  then have "ReadNBytes (unat (of_nat (length s) :: 32 word)) (bytes_of_string s @ rest)
      = Inr (bytes_of_string s, rest)"
    using ReadNBytes_append [of "bytes_of_string s" rest] by (simp add: bytes_of_string_def)
  then show ?thesis
    by (simp add: ReadString_def bs ReadUint32_borsh_u32 string_of_bytes_of_string)
qed

lemma ReadPublicKey_bytes: "ReadPublicKey (PublicKey_bytes m @ rest) = Inr (m, rest)"
proof -
  have "length (PublicKey_bytes m) = 32"
    using PublicKey_bytes [of m] by simp
  then have "ReadNBytes 32 (PublicKey_bytes m @ rest) = Inr (PublicKey_bytes m, rest)"
    using ReadNBytes_append [of "PublicKey_bytes m" rest] by simp
  then show ?thesis
    by (simp add: ReadPublicKey_def PublicKey_bytes_inverse)
qed

lemma read_RawEvent_borsh:
  assumes "borsh_RawEvent ev = Some bs"
  shows "read_RawEvent (bs @ rest) = Inr (ev, rest)"
proof -
  from assms obtain n s u where n: "borsh_string (Name ev) = Some n"
    and s: "borsh_string (Symbol ev) = Some s"
    and u: "borsh_string (Uri ev) = Some u"
    and bs: "bs = n @ s @ u @ PublicKey_bytes (Mint ev)"
    by (auto simp: borsh_RawEvent_def split: option.splits)
  show ?thesis
    unfolding read_RawEvent_def bs
    using ReadString_borsh_string [OF n] ReadString_borsh_string [OF s]
      ReadString_borsh_string [OF u] ReadPublicKey_bytes
    by simp
qed

lemma example_borsh:
  "borsh_RawEvent \<lparr>Name = ''Foo'', Symbol = ''FOO'', Uri = ''ipfs://x'',
       Mint = PublicKey_of_bytes example_mint\<rparr>
   = Some ([3, 0, 0, 0, 70, 111, 111, 3, 0, 0, 0, 70, 79, 79,
            8, 0, 0, 0, 105, 112, 102, 115, 58, 47, 47, 120] @ example_mint)"
  by (simp add: borsh_RawEvent_def borsh_string_def borsh_u32_def bytes_of_string_def
      PublicKey_of_bytes_inverse example_mint_def)

text \<open>
  C2. Round trip: a record that has an encoding (the discriminator followed by the Borsh
  encoding of its fields) is decoded by \<open>DecodeBase64\<close> with the creation discriminator
  to the same record.
\<close>

theorem DecodeBase64_roundtrip:
  assumes "borsh_RawEvent ev = Some bs"
  shows "DecodeBase64 read_RawEvent (creationDiscriminator @ bs) creationDiscriminator = Ok ev"
  using read_RawEvent_borsh [OF assms, of "[]"] by (simp add: DecodeBase64_prefixed)

theorem DecodeBase64_roundtrip_witness:
  "DecodeBase64 read_RawEvent
     (creationDiscriminator @ [3, 0, 0, 0, 70, 111, 111, 3, 0, 0, 0, 70, 79, 79,
            8, 0, 0, 0, 105, 112, 102, 115, 58, 47, 47, 120] @ example_mint)
     creationDiscriminator
   = Ok \<lparr>Name = ''Foo'', Symbol = ''FOO'', Uri = ''ipfs://x'',
          Mint = PublicKey_of_bytes example_mint\<rparr>"
  using DecodeBase64_roundtrip [OF example_borsh] by simp

section \<open>Properties of the decode pipeline\<close>

lemma json_Marshal_Inr: "\<exists>m. json_Marshal ev = Inr m"
  by (simp add: json_Marshal_def)

lemma example_Contains: "Contains example_line logIdentifier"
  by (simp add: example_line_def Contains_def logIdentifier_def HasPrefix_def)

lemma example_extract:
  "extractProgramData example_line = Inr ''G3KpTd7rY3YDAAAARm9vAwAAAEZPTwgAAABpcGZzOi8veAECAwQFBgcICQoLDA0ODxAREhMUFRYXGBkaGxwdHh8g''"
  by (simp add: example_line_def extractProgramData_def programDataPrefix_def Split.simps
      HasPrefix_def)

lemma example_base64:
  "DecodeString ''G3KpTd7rY3YDAAAARm9vAwAAAEZPTwgAAABpcGZzOi8veAECAwQFBgcICQoLDA0ODxAREhMUFRYXGBkaGxwdHh8g''
   = Inr (creationDiscriminator @ ([3, 0, 0, 0, 70, 111, 111, 3, 0, 0, 0, 70, 79, 79,
            8, 0, 0, 0, 105, 112, 102, 115, 58, 47, 47, 120] @ example_mint) @ [])"
  by (simp add: DecodeString_def b64_value_def b64_quantum_def creationDiscriminator_def
      example_mint_def)

lemma example_base58:
  "base58_Encode example_mint = ''4wBqpZM9xaSheZzJSMawUKKwhdpChKbZ5eu5ky4Vigw''"
  by (simp add: example_mint_def base58_Encode_def nat_of_bytes_def b58_digits.simps
      b58_alphabet_def)

lemma example_json:
  "json_Marshal \<lparr>name = ''Foo'', symbol = ''FOO'', uri = ''ipfs://x'',
                 mint = ''4wBqpZM9xaSheZzJSMawUKKwhdpChKbZ5eu5ky4Vigw''\<rparr>
   = Inr [123, 34, 110, 97, 109, 101, 34, 58, 34, 70, 111, 111, 34, 44, 34, 115, 121, 109, 98,
      111, 108, 34, 58, 34, 70, 79, 79, 34, 44, 34, 117, 114, 105, 34, 58, 34, 105, 112, 102,
      115, 58, 47, 47, 120, 34, 44, 34, 109, 105, 110, 116, 34, 58, 34, 52, 119, 66, 113, 112,
      90, 77, 57, 120, 97, 83, 104, 101, 90, 122, 74, 83, 77, 97, 119, 85, 75, 75, 119, 104,
      100, 112, 67, 104, 75, 98, 90, 53, 101, 117, 53, 107, 121, 52, 86, 105, 103, 119, 34,
      125]"
  by (simp add: json_Marshal_def json_string_def htmlSafe_def bytes_of_string_def)

text \<open>
  C1. A line with the marker whose payload decodes from base64 to the discriminator
  followed by the Borsh encoding of a record (fields in the order name, symbol, uri, mint)
  makes \<open>processLog\<close> return no error and hand over one message: the JSON text of the
  \<open>CreateEvent\<close> with the same name, symbol and uri and with the base58 text of the 32
  bytes of the mint key.
\<close>

theorem processLog_creation_event:
  assumes "Contains log logIdentifier"
    and "extractProgramData log = Inr data"
    and "DecodeString data = Inr (creationDiscriminator @ bs @ rest)"
    and "borsh_RawEvent \<lparr>Name = n, Symbol = s, Uri = u, Mint = m\<rparr> = Some bs"
  shows "\<exists>marshalled.
           json_Marshal \<lparr>name = n, symbol = s, uri = u,
                         mint = base58_Encode (PublicKey_bytes m)\<rparr> = Inr marshalled
           \<and> processLog log = (Ok (), [marshalled])"
proof -
  have "read_RawEvent (bs @ rest) = Inr (\<lparr>Name = n, Symbol = s, Uri = u, Mint = m\<rparr>, rest)"
    using assms(4) by (rule read_RawEvent_borsh)
  then have "DecodeBase64 read_RawEvent (creationDiscriminator @ bs @ rest) creationDiscriminator
      = Ok \<lparr>Name = n, Symbol = s, Uri = u, Mint = m\<rparr>"
    by (simp add: DecodeBase64_prefixed)
  moreover have "HasPrefix (creationDiscriminator @ bs @ rest) creationDiscriminator"
    by (simp add: HasPrefix_def)
  ultimately show ?thesis
    using assms(1-3)
    by (simp add: processLog_def PublicKey_String_def json_Marshal_def)
qed

theorem processLog_creation_event_witness:
  "processLog example_line = (Ok (), [[123, 34, 110, 97, 109, 101, 34, 58, 34, 70, 111, 111, 34, 44, 34, 115, 121, 109, 98,
      111, 108, 34, 58, 34, 70, 79, 79, 34, 44, 34, 117, 114, 105, 34, 58, 34, 105, 112, 102,
      115, 58, 47, 47, 120, 34, 44, 34, 109, 105, 110, 116, 34, 58, 34, 52, 119, 66, 113, 112,
      90, 77, 57, 120, 97, 83, 104, 101, 90, 122, 74, 83, 77, 97, 119, 85, 75, 75, 119, 104,
      100, 112, 67, 104, 75, 98, 90, 53, 101, 117, 53, 107, 121, 52, 86, 105, 103, 119, 34,
      125]])"
proof -
  have "PublicKey_bytes (PublicKey_of_bytes example_mint) = example_mint"
    by (simp add: PublicKey_of_bytes_inverse example_mint_def)
  then show ?thesis
    using processLog_creation_event [OF example_Contains example_extract example_base64
        example_borsh]
    by (simp add: example_base58 example_json)
qed

text \<open>
  C3. \<open>processLog\<close> returns an error exactly when the line has the marker and the
  prefix is absent, or the payload is not valid base64, or the Borsh decoding of a payload
  that starts with the discriminator fails. It never panics. A line without the marker,
  and a marked line whose decoded bytes do not start with the discriminator, give no error
  and no message.
\<close>

theorem processLog_error_iff:
  "((\<exists>e. fst (processLog log) = Error e) \<longleftrightarrow>
      Contains log logIdentifier \<and>
      (\<not> Contains log programDataPrefix
       \<or> (\<exists>data. extractProgramData log = Inr data \<and>
            ((\<exists>e. DecodeString data = Inl e)
             \<or> (\<exists>decoded e. DecodeString data = Inr decoded
                  \<and> HasPrefix decoded creationDiscriminator
                  \<and> DecodeBorsh read_RawEvent (drop (length creationDiscriminator) decoded) = Inl e)))))
   \<and> fst (processLog log) \<noteq> Panic
   \<and> (\<not> Contains log logIdentifier \<longrightarrow> processLog log = (Ok (), []))
   \<and> (\<forall>data decoded. Contains log logIdentifier \<and> extractProgramData log = Inr data
         \<and> DecodeString data = Inr decoded \<and> \<not> HasPrefix decoded creationDiscriminator
        \<longrightarrow> processLog log = (Ok (), []))"
proof (cases "Contains log logIdentifier")
  case False
  then show ?thesis by (simp add: processLog_def)
next
  case marked: True
  show ?thesis
  proof (cases "extractProgramData log")
    case (Inl e)
    then have "\<not> Contains log programDataPrefix"
      by (simp add: extractProgramData_Inl_iff)
    with marked Inl show ?thesis by (simp add: processLog_def)
  next
    case (Inr data)
    then have pre: "Contains log programDataPrefix"
      by (rule extractProgramData_Inr_Contains)
    show ?thesis
    proof (cases "DecodeString data")
      case (Inl e)
      with marked Inr pre show ?thesis by (simp add: processLog_def)
    next
      case dec: (Inr decoded)
      show ?thesis
      proof (cases "HasPrefix decoded creationDiscriminator")
        case False
        with marked Inr pre dec show ?thesis by (simp add: processLog_def)
      next
        case True
        then have "DecodeBase64 read_RawEvent decoded creationDiscriminator =
            (case read_RawEvent (drop (length creationDiscriminator) decoded) of
               Inl e \<Rightarrow> Error (BorshPayload e) | Inr (v, rest) \<Rightarrow> Ok v)"
          by (simp add: DecodeBase64_unfold HasPrefix_def)
        with marked Inr pre dec True show ?thesis
          by (auto simp add: processLog_def DecodeBorsh_def json_Marshal_def
              split: sum.splits prod.splits)
      qed
    qed
  qed
qed

theorem processLog_error_iff_witness:
  "processLog ''hello'' = (Ok (), [])
   \<and> processLog ''G3KpTd7r Program data: QUJD'' = (Ok (), [])
   \<and> (\<exists>e. fst (processLog ''G3KpTd7r'') = Error e)
   \<and> (\<exists>e. fst (processLog ''Program data: G3KpTd7r!'') = Error e)
   \<and> (\<exists>e. fst (processLog ''Program data: G3KpTd7rY3YDAAAA'') = Error e)"
proof -
  have 1: "\<not> Contains ''hello'' logIdentifier"
    by (simp add: Contains_def logIdentifier_def HasPrefix_def)
  have 2: "Contains ''G3KpTd7r Program data: QUJD'' logIdentifier"
    "extractProgramData ''G3KpTd7r Program data: QUJD'' = Inr ''QUJD''"
    "DecodeString ''QUJD'' = Inr [65, 66, 67]"
    "\<not> HasPrefix [65, 66, 67] creationDiscriminator"
    by (simp_all add: Contains_def logIdentifier_def HasPrefix_def extractProgramData_def
        programDataPrefix_def Split.simps DecodeString_def b64_value_def b64_quantum_def
        creationDiscriminator_def)
  have 3: "Contains ''G3KpTd7r'' logIdentifier" "\<not> Contains ''G3KpTd7r'' programDataPrefix"
    by (simp_all add: Contains_def logIdentifier_def HasPrefix_def programDataPrefix_def)
  have 4: "Contains ''Program data: G3KpTd7r!'' logIdentifier"
    "extractProgramData ''Program data: G3KpTd7r!'' = Inr ''G3KpTd7r!''"
    "DecodeString ''G3KpTd7r!'' = Inl CorruptInput"
    by (simp_all add: Contains_def logIdentifier_def HasPrefix_def extractProgramData_def
        programDataPrefix_def Split.simps DecodeString_def b64_value_def b64_quantum_def)
  have 5: "Contains ''Program data: G3KpTd7rY3YDAAAA'' logIdentifier"
    "extractProgramData ''Program data: G3KpTd7rY3YDAAAA'' = Inr ''G3KpTd7rY3YDAAAA''"
    "DecodeString ''G3KpTd7rY3YDAAAA'' = Inr (creationDiscriminator @ [3, 0, 0, 0])"
    "DecodeBorsh read_RawEvent [3, 0, 0, 0] = Inl UnexpectedEOF"
    by (simp_all add: Contains_def logIdentifier_def HasPrefix_def extractProgramData_def
        programDataPrefix_def Split.simps DecodeString_def b64_value_def b64_quantum_def
        creationDiscriminator_def DecodeBorsh_def read_RawEvent_def ReadString_def
        ReadUint32_def ReadNBytes_def Uint32_LE_def)
  have a: "processLog ''hello'' = (Ok (), [])"
    using processLog_error_iff [of "''hello''"] 1 by simp
  have b: "processLog ''G3KpTd7r Program data: QUJD'' = (Ok (), [])"
    using processLog_error_iff [of "''G3KpTd7r Program data: QUJD''"] 2 by blast
  have c: "\<exists>e. fst (processLog ''G3KpTd7r'') = Error e"
    using processLog_error_iff [of "''G3KpTd7r''"] 3 by blast
  have d: "\<exists>e. fst (processLog ''Program data: G3KpTd7r!'') = Error e"
    using processLog_error_iff [of "''Program data: G3KpTd7r!''"] 4 by blast
  have "HasPrefix (creationDiscriminator @ [3, 0, 0, 0]) creationDiscriminator"
    "drop (length creationDiscriminator) (creationDiscriminator @ [3, 0, 0, 0]) = [3, 0, 0, 0]"
    by (simp_all add: HasPrefix_def)
  then have e: "\<exists>e. fst (processLog ''Program data: G3KpTd7rY3YDAAAA'') = Error e"
    using processLog_error_iff [of "''Program data: G3KpTd7rY3YDAAAA''"] 5 by metis
  from a b c d e show ?thesis by simp
qed

section \<open>Properties of the upstream connector\<close>

lemma processLog_not_Panic: "fst (processLog l) \<noteq> Panic"
  by (auto simp add: processLog_def DecodeBase64_unfold HasPrefix_def json_Marshal_def
      split: sum.splits prod.splits)

lemma delays_append: "delays (xs @ ys) = delays xs @ delays ys"
  by (induction xs rule: delays.induct) simp_all

lemma connects_append: "connects (xs @ ys) = connects xs + connects ys"
  by (simp add: connects_def)

lemma process_logs_Some:
  "\<exists>ext. process_logs ls tr = Some (tr @ ext) \<and> delays ext = [] \<and> connects ext = 0"
proof (induction ls arbitrary: tr)
  case Nil
  show ?case by (simp add: connects_def)
next
  case (Cons l ls)
  obtain r sent where p: "processLog l = (r, sent)" by (cases "processLog l")
  have sent: "delays (map EvGoSendMessageToAllClients sent) = []"
    "connects (map EvGoSendMessageToAllClients sent) = 0"
    by (induction sent) (simp_all add: connects_def)
  from p processLog_not_Panic [of l] have "r \<noteq> Panic" by simp
  then show ?case
  proof (cases r)
    case (Ok u)
    from Cons.IH [of "tr @ map EvGoSendMessageToAllClients sent"]
    obtain ext where "process_logs ls (tr @ map EvGoSendMessageToAllClients sent)
        = Some ((tr @ map EvGoSendMessageToAllClients sent) @ ext)"
      and "delays ext = []" and "connects ext = 0" by blast
    with p Ok sent show ?thesis
      by (intro exI [of _ "map EvGoSendMessageToAllClients sent @ ext"])
        (simp add: delays_append connects_append)
  next
    case (Error e)
    from Cons.IH [of "tr @ map EvGoSendMessageToAllClients sent @ [EvProcessError e]"]
    obtain ext where
      "process_logs ls (tr @ map EvGoSendMessageToAllClients sent @ [EvProcessError e])
        = Some ((tr @ map EvGoSendMessageToAllClients sent @ [EvProcessError e]) @ ext)"
      and "delays ext = []" and "connects ext = 0" by blast
    with p Error sent show ?thesis
      by (intro exI [of _ "map EvGoSendMessageToAllClients sent @ [EvProcessError e] @ ext"])
        (simp add: delays_append connects_append connects_def)
  qed simp
qed

lemma listenForMessages_result:
  assumes "listenForMessages sub tr = Some y"
  shows "\<exists>ext. y = (Error RecvFailed, tr @ ext) \<and> delays ext = [] \<and> connects ext = 0"
  using assms
proof (induction rule: listenForMessages.raw_induct [rotated, consumes 1, case_names step])
  case (step f sub tr y)
  show ?case
  proof (cases "shd sub")
    case RecvError
    with step(2) show ?thesis by (auto simp: connects_def)
  next
    case (RecvMessage logs)
    from process_logs_Some [of logs "tr @ [EvRecv]"]
    obtain ext where p: "process_logs logs (tr @ [EvRecv]) = Some ((tr @ [EvRecv]) @ ext)"
      and e: "delays ext = []" "connects ext = 0" by blast
    with step(2) RecvMessage have "f (stl sub) ((tr @ [EvRecv]) @ ext) = Some y" by simp
    from step(1) [OF this] obtain ext' where
      "y = (Error RecvFailed, ((tr @ [EvRecv]) @ ext) @ ext')"
      "delays ext' = []" "connects ext' = 0" by blast
    with e show ?thesis
      by (intro exI [of _ "[EvRecv] @ ext @ ext'"])
        (simp add: delays_append connects_append connects_def)
  qed
qed

lemma listenForMessages_returns:
  "snth sub k = RecvError \<Longrightarrow> \<exists>y. listenForMessages sub tr = Some y"
proof (induction k arbitrary: sub tr)
  case 0
  then show ?case by (subst listenForMessages.simps) simp
next
  case (Suc k)
  show ?case
  proof (cases "shd sub")
    case RecvError
    then show ?thesis by (subst listenForMessages.simps) simp
  next
    case (RecvMessage logs)
    from process_logs_Some [of logs "tr @ [EvRecv]"]
    obtain tr' where p: "process_logs logs (tr @ [EvRecv]) = Some tr'" by blast
    from Suc.prems have "snth (stl sub) k = RecvError" by simp
    from Suc.IH [OF this, of tr'] obtain y where "listenForMessages (stl sub) tr' = Some y" ..
    with RecvMessage p show ?thesis by (subst listenForMessages.simps) simp
  qed
qed

lemma connectAndListen_result:
  assumes "connectAndListen a tr = Some y"
  shows "\<exists>e ext. y = (Error e, tr @ EvConnect # ext) \<and> delays ext = [] \<and> connects ext = 0"
proof (cases a)
  case ConnectFails
  with assms show ?thesis by (auto simp: connectAndListen_def connects_def)
next
  case SubscribeFails
  with assms show ?thesis by (auto simp: connectAndListen_def connects_def)
next
  case (Subscribed sub)
  with assms obtain z where z: "listenForMessages sub (tr @ [EvConnect, EvSubscribe]) = Some z"
    and y: "y = (fst z, snd z @ [EvClose])"
    by (auto simp: connectAndListen_def split: option.splits prod.splits)
  from listenForMessages_result [OF z] obtain ext where
    "z = (Error RecvFailed, (tr @ [EvConnect, EvSubscribe]) @ ext)"
    "delays ext = []" "connects ext = 0" by blast
  with y show ?thesis
    by (intro exI [of _ RecvFailed] exI [of _ "[EvSubscribe] @ ext @ [EvClose]"])
      (simp add: delays_append connects_append connects_def)
qed

lemma connectAndListen_returns:
  "fails a \<Longrightarrow> \<exists>y. connectAndListen a tr = Some y"
proof (cases a)
  case (Subscribed sub)
  assume "fails a"
  with Subscribed obtain k where "snth sub k = RecvError" by auto
  from listenForMessages_returns [OF this, of "tr @ [EvConnect, EvSubscribe]"]
  show ?thesis using Subscribed by (auto simp: connectAndListen_def)
qed (simp_all add: connectAndListen_def)

lemma body_result:
  assumes "listenToNewPairs_body a tr = Some y"
  shows "\<exists>b. y = Inr (tr @ b) \<and> failed_pass b"
proof -
  from assms obtain z where z: "connectAndListen a tr = Some z"
    by (auto simp: listenToNewPairs_body_def split: option.splits)
  from connectAndListen_result [OF z] obtain e ext where
    e: "z = (Error e, tr @ EvConnect # ext)" "delays ext = []" "connects ext = 0" by blast
  have "failed_pass (EvConnect # ext @ [EvSleep reconnectDelay])"
    using e(2,3) by (simp add: failed_pass_def delays_append connects_append connects_def)
  with assms z e(1) show ?thesis
    by (intro exI [of _ "EvConnect # ext @ [EvSleep reconnectDelay]"])
      (simp add: listenToNewPairs_body_def)
qed

lemma body_returns:
  "fails a \<Longrightarrow> \<exists>y. listenToNewPairs_body a tr = Some y"
  using connectAndListen_returns [of a tr]
  by (auto simp: listenToNewPairs_body_def split: outcome.splits)

lemma listenToNewPairs_stops_with_process:
  assumes "listenToNewPairs w tr = Some y"
  shows "(\<exists>t. y = Ended t) \<and> (\<exists>i. snth w i = ProcessEnds)"
  using assms
proof (induction rule: listenToNewPairs.raw_induct [rotated, consumes 1, case_names step])
  case (step f w tr y)
  show ?case
  proof (cases "shd w")
    case ProcessEnds
    with step(2) have "y = Ended tr" by simp
    moreover from ProcessEnds have "snth w 0 = ProcessEnds" by simp
    ultimately show ?thesis by blast
  next
    case (Upstream a)
    with step(2) obtain z where z: "listenToNewPairs_body a tr = Some z"
      by (auto split: option.splits)
    from body_result [OF z] obtain b where "z = Inr (tr @ b)" by blast
    with step(2) Upstream z have "f (stl w) (tr @ b) = Some y" by simp
    from step(1) [OF this] obtain t i where "y = Ended t" "snth (stl w) i = ProcessEnds"
      by blast
    then have "y = Ended t" "snth w (Suc i) = ProcessEnds" by simp_all
    then show ?thesis by blast
  qed
qed

lemma failed_passes_trace:
  "\<forall>b \<in> set blocks. failed_pass b \<Longrightarrow>
     delays (concat blocks) = replicate (length blocks) reconnectDelay
     \<and> connects (concat blocks) = length blocks"
  by (induction blocks) (simp_all add: delays_append connects_append failed_pass_def connects_def)

lemma listenToNewPairs_failing:
  "(\<forall>i<n. \<exists>a. snth w i = Upstream a \<and> fails a) \<Longrightarrow>
     \<exists>blocks. length blocks = n \<and> (\<forall>b \<in> set blocks. failed_pass b)
       \<and> listenToNewPairs w tr = listenToNewPairs (sdrop n w) (tr @ concat blocks)"
proof (induction n arbitrary: w tr)
  case 0
  show ?case by (intro exI [of _ "[]"]) simp
next
  case (Suc n)
  from Suc.prems obtain a where a: "shd w = Upstream a" "fails a"
    by (metis snth.simps(1) zero_less_Suc)
  from body_returns [OF a(2), of tr] obtain y where y: "listenToNewPairs_body a tr = Some y" ..
  from body_result [OF y] obtain b where b: "y = Inr (tr @ b)" "failed_pass b" by blast
  from a y b have 1: "listenToNewPairs w tr = listenToNewPairs (stl w) (tr @ b)"
    by (subst listenToNewPairs.simps) simp
  from Suc.prems have "\<forall>i<n. \<exists>a. snth (stl w) i = Upstream a \<and> fails a" by auto
  from Suc.IH [OF this, of "tr @ b"] obtain blocks where
    blocks: "length blocks = n" "\<forall>b \<in> set blocks. failed_pass b"
      "listenToNewPairs (stl w) (tr @ b)
        = listenToNewPairs (sdrop n (stl w)) ((tr @ b) @ concat blocks)" by blast
  with 1 b(2) show ?case
    by (intro exI [of _ "b # blocks"]) simp
qed

lemma example_passes:
  "listenToNewPairs
     (Upstream ConnectFails ## Upstream SubscribeFails
       ## Upstream (Subscribed (RecvMessage [''hello''] ## sconst RecvError))
       ## sconst ProcessEnds) []
   = Some (Ended [EvConnect, EvSleep 2000000000,
                  EvConnect, EvSubscribe, EvClose, EvSleep 2000000000,
                  EvConnect, EvSubscribe, EvRecv, EvRecv, EvClose, EvSleep 2000000000])"
proof -
  have p: "processLog ''hello'' = (Ok (), [])"
    by (simp add: processLog_def Contains_def logIdentifier_def HasPrefix_def)
  have l: "listenForMessages (RecvMessage [''hello''] ## sconst RecvError) tr
      = Some (Error RecvFailed, tr @ [EvRecv, EvRecv])" for tr
    by (subst listenForMessages.simps, simp add: p, subst listenForMessages.simps, simp)
  show ?thesis
    apply (subst listenToNewPairs.simps)
    apply (simp add: listenToNewPairs_body_def connectAndListen_def reconnectDelay_def)
    apply (subst listenToNewPairs.simps)
    apply (simp add: listenToNewPairs_body_def connectAndListen_def reconnectDelay_def)
    apply (subst listenToNewPairs.simps)
    apply (simp add: listenToNewPairs_body_def connectAndListen_def reconnectDelay_def l)
    apply (subst listenToNewPairs.simps)
    apply simp
    done
qed

text \<open>
  C5. The loop of \<open>listenToNewPairs\<close> never ends by itself: as long as the process lives
  it returns for no behaviour of the upstream, and nothing in it panics, so that only the
  end of the process stops it. When the first \<open>N + 1\<close> passes fail (the connect failure
  and \<open>N\<close> more failures of any phase), what the loop has done by then is \<open>N + 1\<close>
  passes one after the other, each starting with its connect and ending with a sleep of
  the same \<open>reconnectDelay\<close>, with no other connect and no other sleep; after the last
  sleep the loop goes on with the next pass as it started, for every \<open>N\<close>. When the
  process ends at that moment, this is the whole trace of the goroutine.
\<close>

theorem listenToNewPairs_recovery:
  "((\<forall>i. snth w i \<noteq> ProcessEnds) \<longrightarrow> listenToNewPairs w tr = None)
   \<and> (\<forall>t. listenToNewPairs w tr \<noteq> Some (Panicked t))
   \<and> ((\<forall>i\<le>N. \<exists>a. snth w i = Upstream a \<and> fails a) \<longrightarrow>
        (\<exists>blocks. length blocks = Suc N \<and> (\<forall>b \<in> set blocks. failed_pass b)
           \<and> delays (concat blocks) = replicate (Suc N) reconnectDelay
           \<and> connects (concat blocks) = Suc N
           \<and> listenToNewPairs w [] = listenToNewPairs (sdrop (Suc N) w) (concat blocks)
           \<and> (snth w (Suc N) = ProcessEnds \<longrightarrow>
                listenToNewPairs w [] = Some (Ended (concat blocks)))))"
proof (intro conjI impI allI)
  assume "\<forall>i. snth w i \<noteq> ProcessEnds"
  with listenToNewPairs_stops_with_process [of w tr] show "listenToNewPairs w tr = None"
    by (cases "listenToNewPairs w tr") auto
next
  fix t
  from listenToNewPairs_stops_with_process [of w tr "Panicked t"]
  show "listenToNewPairs w tr \<noteq> Some (Panicked t)" by auto
next
  assume "\<forall>i\<le>N. \<exists>a. snth w i = Upstream a \<and> fails a"
  then have "\<forall>i<Suc N. \<exists>a. snth w i = Upstream a \<and> fails a" by (simp add: less_Suc_eq_le)
  from listenToNewPairs_failing [OF this, of "[]"] obtain blocks where
    blocks: "length blocks = Suc N" "\<forall>b \<in> set blocks. failed_pass b"
      "listenToNewPairs w [] = listenToNewPairs (sdrop (Suc N) w) (concat blocks)" by auto
  have "listenToNewPairs w [] = Some (Ended (concat blocks))" if "snth w (Suc N) = ProcessEnds"
  proof -
    from that have "shd (sdrop (Suc N) w) = ProcessEnds" by (simp add: sdrop_simps)
    then have "listenToNewPairs (sdrop (Suc N) w) (concat blocks) = Some (Ended (concat blocks))"
      by (subst listenToNewPairs.simps) simp
    with blocks(3) show ?thesis by simp
  qed
  with blocks failed_passes_trace [OF blocks(2)]
  show "\<exists>blocks. length blocks = Suc N \<and> (\<forall>b \<in> set blocks. failed_pass b)
           \<and> delays (concat blocks) = replicate (Suc N) reconnectDelay
           \<and> connects (concat blocks) = Suc N
           \<and> listenToNewPairs w [] = listenToNewPairs (sdrop (Suc N) w) (concat blocks)
           \<and> (snth w (Suc N) = ProcessEnds \<longrightarrow>
                listenToNewPairs w [] = Some (Ended (concat blocks)))"
    by (intro exI [of _ blocks]) simp
qed

theorem listenToNewPairs_recovery_witness:
  "listenToNewPairs
     (Upstream ConnectFails ## Upstream SubscribeFails
       ## Upstream (Subscribed (RecvMessage [''hello''] ## sconst RecvError))
       ## sconst ProcessEnds) []
   = Some (Ended [EvConnect, EvSleep 2000000000,
                  EvConnect, EvSubscribe, EvClose, EvSleep 2000000000,
                  EvConnect, EvSubscribe, EvRecv, EvRecv, EvClose, EvSleep 2000000000])
   \<and> (\<exists>blocks. length blocks = 3 \<and> list_all failed_pass blocks
         \<and> concat blocks = [EvConnect, EvSleep 2000000000,
                  EvConnect, EvSubscribe, EvClose, EvSleep 2000000000,
                  EvConnect, EvSubscribe, EvRecv, EvRecv, EvClose, EvSleep 2000000000])
   \<and> listenToNewPairs (sconst (Upstream ConnectFails)) [] = None"
proof -
  let ?w = "Upstream ConnectFails ## Upstream SubscribeFails
       ## Upstream (Subscribed (RecvMessage [''hello''] ## sconst RecvError))
       ## sconst ProcessEnds"
  have "snth (RecvMessage [''hello''] ## sconst RecvError) 1 = RecvError" by simp
  then have f: "fails (Subscribed (RecvMessage [''hello''] ## sconst RecvError))"
    unfolding fails.simps by (rule exI)
  have "\<exists>a. snth ?w i = Upstream a \<and> fails a" if "i \<le> 2" for i
  proof -
    from that consider "i = 0" | "i = 1" | "i = 2" by linarith
    then show ?thesis using f by cases (simp_all add: numeral_2_eq_2)
  qed
  then have h: "\<forall>i\<le>2. \<exists>a. snth ?w i = Upstream a \<and> fails a" by blast
  have e: "snth ?w (Suc 2) = ProcessEnds" by (simp add: numeral_2_eq_2)
  note T = listenToNewPairs_recovery [where w = ?w and tr = "[]" and N = 2,
      THEN conjunct2, THEN conjunct2, THEN mp, OF h]
  then obtain blocks where b: "length blocks = Suc 2" "\<forall>b \<in> set blocks. failed_pass b"
    "snth ?w (Suc 2) = ProcessEnds \<longrightarrow> listenToNewPairs ?w [] = Some (Ended (concat blocks))"
    by blast
  with e have "listenToNewPairs ?w [] = Some (Ended (concat blocks))" by blast
  with example_passes have c: "concat blocks = [EvConnect, EvSleep 2000000000,
                  EvConnect, EvSubscribe, EvClose, EvSleep 2000000000,
                  EvConnect, EvSubscribe, EvRecv, EvRecv, EvClose, EvSleep 2000000000]"
    by simp
  have 1: "\<exists>blocks. length blocks = 3 \<and> list_all failed_pass blocks
         \<and> concat blocks = [EvConnect, EvSleep 2000000000,
                  EvConnect, EvSubscribe, EvClose, EvSleep 2000000000,
                  EvConnect, EvSubscribe, EvRecv, EvRecv, EvClose, EvSleep 2000000000]"
    using b(1,2) c by (intro exI [of _ blocks]) (simp add: list_all_iff)
  have "\<forall>i. snth (sconst (Upstream ConnectFails)) i \<noteq> ProcessEnds" by simp
  with listenToNewPairs_recovery [where w = "sconst (Upstream ConnectFails)" and tr = "[]"]
  have 2: "listenToNewPairs (sconst (Upstream ConnectFails)) [] = None" by blast
  from example_passes 1 2 show ?thesis by (intro conjI)
qed

section \<open>Properties of the downstream server\<close>

lemma goroutine_step_frame [simp]:
  "ConnectedClients (goroutine_step i ok s) = ConnectedClients s"
  "reading (goroutine_step i ok s) = reading s"
  "next_conn (goroutine_step i ok s) = next_conn s"
  "length (goroutines (goroutine_step i ok s)) = length (goroutines s)"
  by (simp_all add: goroutine_step_def Let_def split: point.splits)

lemma sendMessageToAllClients_frame [simp]:
  "ConnectedClients (sendMessageToAllClients m s) = ConnectedClients s"
  "reading (sendMessageToAllClients m s) = reading s"
  "next_conn (sendMessageToAllClients m s) = next_conn s"
  "locked (sendMessageToAllClients m s) = locked s"
  "writes (sendMessageToAllClients m s) = writes s"
  "logged (sendMessageToAllClients m s) = logged s"
  by (simp_all add: sendMessageToAllClients_def Let_def)

lemma handleConnection_frame_frame [simp]:
  "ConnectedClients (handleConnection_frame c m s) = ConnectedClients s"
  "reading (handleConnection_frame c m s) = reading s"
  "next_conn (handleConnection_frame c m s) = next_conn s"
  "locked (handleConnection_frame c m s) = locked s"
  "writes (handleConnection_frame c m s) = writes s"
  by (simp_all add: handleConnection_frame_def)











lemma run_snoc: "run (evs @ [e]) s = step e (run evs s)"
  by (simp add: run_def)





















subsection \<open>The deliveries of a broadcast\<close>











end
